theory Spec2Isabelle
  imports Main "HOL-Library.Word" "HOL-Library.AList"
begin

section \<open>JavaScript strings\<close>

text \<open>
  A JavaScript string is a sequence of 16-bit UTF-16 code units. String literals of the
  source are ASCII and are written with \<open>js\<close>.
\<close>

type_synonym code_unit = "16 word"

type_synonym jsstring = "code_unit list"

definition cu :: "char \<Rightarrow> code_unit" where
  "cu c = of_char c"

definition js :: "string \<Rightarrow> jsstring" where
  "js s = map cu s"

text \<open>
  \<open>String.prototype.trim\<close> removes the ECMAScript \<open>WhiteSpace\<close> and \<open>LineTerminator\<close>
  code points from both ends: TAB, LF, VT, FF, CR, SP, NBSP, U+1680, U+2000 to U+200A,
  U+2028, U+2029, U+202F, U+205F, U+3000 and U+FEFF.
\<close>

definition is_ws :: "code_unit \<Rightarrow> bool" where
  "is_ws c =
     (c \<in> set [0x0009, 0x000A, 0x000B, 0x000C, 0x000D, 0x0020, 0x00A0, 0x1680,
                0x2028, 0x2029, 0x202F, 0x205F, 0x3000, 0xFEFF]
      \<or> (0x2000 \<le> c \<and> c \<le> 0x200A))"

definition trim :: "jsstring \<Rightarrow> jsstring" where
  "trim s = rev (dropWhile is_ws (rev (dropWhile is_ws s)))"

text \<open>A string is falsy exactly when it is empty.\<close>

definition truthy_string :: "jsstring \<Rightarrow> bool" where
  "truthy_string s = (s \<noteq> [])"

text \<open>The number a string of decimal digits denotes.\<close>

definition decimal_value :: "jsstring \<Rightarrow> nat" where
  "decimal_value s = foldl (\<lambda>a c. 10 * a + unat (c - cu CHR ''0'')) 0 s"

section \<open>JavaScript values as produced by \<open>JSON.parse\<close>\<close>

text \<open>
  A number keeps the source text of its literal: its floating-point value is never
  inspected by the program. An object is the list of its own properties, one entry per key.
\<close>

datatype jsval =
    JNull
  | JBool bool
  | JNum jsstring
  | JStr jsstring
  | JArr "jsval list"
  | JObj "(jsstring \<times> jsval) list"

subsection \<open>\<open>JSON.parse\<close>\<close>

text \<open>
  The JSON grammar of ECMAScript: white space is TAB, LF, CR and SP; a string is
  double-quoted, holds no code unit below U+0020, and a backslash starts one of the escapes
  for the quote, backslash, slash, b, f, n, r, t or u with four hexadecimal digits; a number
  is \<^verbatim>\<open>-? (0 | [1-9][0-9]*) (. [0-9]+)? ([eE] [+-]? [0-9]+)?\<close>. Every parser
  returns the value read and the rest of the input, or \<open>None\<close> where \<open>JSON.parse\<close>
  throws \<open>SyntaxError\<close>. A repeated key keeps its first position and its last value.
  The checks \<open>length r < length cs\<close> make the recursion visibly terminating; a value that
  was read always consumed input, so they never fail (\<open>parse_elements_unguarded\<close>,
  \<open>parse_members_unguarded\<close>).
\<close>

definition is_json_ws :: "code_unit \<Rightarrow> bool" where
  "is_json_ws c = (c \<in> set [0x09, 0x0A, 0x0D, 0x20])"

definition skip_ws :: "jsstring \<Rightarrow> jsstring" where
  "skip_ws cs = dropWhile is_json_ws cs"

definition is_digit :: "code_unit \<Rightarrow> bool" where
  "is_digit c = (cu CHR ''0'' \<le> c \<and> c \<le> cu CHR ''9'')"

definition hex_val :: "code_unit \<Rightarrow> code_unit option" where
  "hex_val c =
     (if cu CHR ''0'' \<le> c \<and> c \<le> cu CHR ''9'' then Some (c - cu CHR ''0'')
      else if cu CHR ''a'' \<le> c \<and> c \<le> cu CHR ''f'' then Some (c - cu CHR ''a'' + 10)
      else if cu CHR ''A'' \<le> c \<and> c \<le> cu CHR ''F'' then Some (c - cu CHR ''A'' + 10)
      else None)"

definition hex4 :: "code_unit \<Rightarrow> code_unit \<Rightarrow> code_unit \<Rightarrow> code_unit \<Rightarrow> code_unit option" where
  "hex4 a b c d =
     (case (hex_val a, hex_val b, hex_val c, hex_val d) of
        (Some x, Some y, Some z, Some w) \<Rightarrow> Some (((x * 16 + y) * 16 + z) * 16 + w)
      | _ \<Rightarrow> None)"

definition unescape :: "code_unit \<Rightarrow> code_unit option" where
  "unescape e =
     (if e = cu CHR 0x22 then Some (cu CHR 0x22)
      else if e = cu CHR 0x5C then Some (cu CHR 0x5C)
      else if e = cu CHR ''/'' then Some (cu CHR ''/'')
      else if e = cu CHR ''b'' then Some 0x08
      else if e = cu CHR ''f'' then Some 0x0C
      else if e = cu CHR ''n'' then Some 0x0A
      else if e = cu CHR ''r'' then Some 0x0D
      else if e = cu CHR ''t'' then Some 0x09
      else None)"

fun parse_string_chars :: "jsstring \<Rightarrow> jsstring \<Rightarrow> (jsstring \<times> jsstring) option" where
  "parse_string_chars acc [] = None"
| "parse_string_chars acc (c # r) =
     (if c = cu CHR 0x22 then Some (rev acc, r)
      else if c = cu CHR 0x5C then
        (case r of
           [] \<Rightarrow> None
         | e # r' \<Rightarrow>
             if e = cu CHR ''u'' then
               (case r' of
                  h1 # h2 # h3 # h4 # r'' \<Rightarrow>
                    (case hex4 h1 h2 h3 h4 of
                       None \<Rightarrow> None
                     | Some u \<Rightarrow> parse_string_chars (u # acc) r'')
                | _ \<Rightarrow> None)
             else
               (case unescape e of
                  None \<Rightarrow> None
                | Some x \<Rightarrow> parse_string_chars (x # acc) r'))
      else if c < 0x20 then None
      else parse_string_chars (c # acc) r)"

definition strip_prefix :: "jsstring \<Rightarrow> jsstring \<Rightarrow> jsstring option" where
  "strip_prefix p cs = (if take (length p) cs = p then Some (drop (length p) cs) else None)"

definition int_part :: "jsstring \<Rightarrow> (jsstring \<times> jsstring) option" where
  "int_part cs =
     (case cs of
        [] \<Rightarrow> None
      | c # r \<Rightarrow>
          if c = cu CHR ''0'' then Some ([c], r)
          else if is_digit c then Some (c # takeWhile is_digit r, dropWhile is_digit r)
          else None)"

definition frac_part :: "jsstring \<Rightarrow> (jsstring \<times> jsstring) option" where
  "frac_part cs =
     (case cs of
        [] \<Rightarrow> Some ([], cs)
      | c # r \<Rightarrow>
          if c = cu CHR ''.'' then
            (if takeWhile is_digit r = [] then None
             else Some (c # takeWhile is_digit r, dropWhile is_digit r))
          else Some ([], cs))"

definition exp_part :: "jsstring \<Rightarrow> (jsstring \<times> jsstring) option" where
  "exp_part cs =
     (case cs of
        [] \<Rightarrow> Some ([], cs)
      | c # r \<Rightarrow>
          if c = cu CHR ''e'' \<or> c = cu CHR ''E'' then
            (let (sg, r') =
               (case r of
                  [] \<Rightarrow> ([], r)
                | s # t \<Rightarrow> if s = cu CHR ''+'' \<or> s = cu CHR ''-'' then ([s], t) else ([], r))
             in if takeWhile is_digit r' = [] then None
                else Some (c # sg @ takeWhile is_digit r', dropWhile is_digit r'))
          else Some ([], cs))"

definition parse_number :: "jsstring \<Rightarrow> (jsstring \<times> jsstring) option" where
  "parse_number cs =
     (let (sg, r0) =
        (case cs of
           [] \<Rightarrow> ([], cs)
         | c # r \<Rightarrow> if c = cu CHR ''-'' then ([c], r) else ([], cs))
      in case int_part r0 of
           None \<Rightarrow> None
         | Some (ip, r1) \<Rightarrow>
             (case frac_part r1 of
                None \<Rightarrow> None
              | Some (fp, r2) \<Rightarrow>
                  (case exp_part r2 of
                     None \<Rightarrow> None
                   | Some (ep, r3) \<Rightarrow> Some (sg @ ip @ fp @ ep, r3))))"

definition parse_literal :: "jsstring \<Rightarrow> (jsval \<times> jsstring) option" where
  "parse_literal cs =
     (case strip_prefix (js ''true'') cs of
        Some r \<Rightarrow> Some (JBool True, r)
      | None \<Rightarrow>
          (case strip_prefix (js ''false'') cs of
             Some r \<Rightarrow> Some (JBool False, r)
           | None \<Rightarrow>
               (case strip_prefix (js ''null'') cs of
                  Some r \<Rightarrow> Some (JNull, r)
                | None \<Rightarrow> map_option (apfst JNum) (parse_number cs))))"

lemma length_skip_ws: "length (skip_ws cs) \<le> length cs"
  by (simp add: skip_ws_def length_dropWhile_le)

lemma skip_ws_Cons_length: "skip_ws cs = c # r \<Longrightarrow> length r < length cs"
  using length_skip_ws [of cs] by simp

function parse_value :: "jsstring \<Rightarrow> (jsval \<times> jsstring) option"
  and parse_elements :: "jsval list \<Rightarrow> jsstring \<Rightarrow> (jsval list \<times> jsstring) option"
  and parse_members ::
    "(jsstring \<times> jsval) list \<Rightarrow> jsstring \<Rightarrow> ((jsstring \<times> jsval) list \<times> jsstring) option"
where
  "parse_value cs =
     (case skip_ws cs of
        [] \<Rightarrow> None
      | c # r \<Rightarrow>
          if c = cu CHR ''{'' then
            (case skip_ws r of
               [] \<Rightarrow> None
             | d # r' \<Rightarrow>
                 if d = cu CHR ''}'' then Some (JObj [], r')
                 else map_option (apfst JObj) (parse_members [] r))
          else if c = cu CHR ''['' then
            (case skip_ws r of
               [] \<Rightarrow> None
             | d # r' \<Rightarrow>
                 if d = cu CHR '']'' then Some (JArr [], r')
                 else map_option (apfst JArr) (parse_elements [] r))
          else if c = cu CHR 0x22 then map_option (apfst JStr) (parse_string_chars [] r)
          else parse_literal (c # r))"
| "parse_elements acc cs =
     (case parse_value cs of
        None \<Rightarrow> None
      | Some (v, r) \<Rightarrow>
          if length r < length cs then
            (case skip_ws r of
               [] \<Rightarrow> None
             | d # r' \<Rightarrow>
                 if d = cu CHR '','' then parse_elements (acc @ [v]) r'
                 else if d = cu CHR '']'' then Some (acc @ [v], r')
                 else None)
          else None)"
| "parse_members acc cs =
     (case skip_ws cs of
        [] \<Rightarrow> None
      | q # r0 \<Rightarrow>
          if q = cu CHR 0x22 then
            (case parse_string_chars [] r0 of
               None \<Rightarrow> None
             | Some (k, r1) \<Rightarrow>
                 (case skip_ws r1 of
                    [] \<Rightarrow> None
                  | col # r2 \<Rightarrow>
                      if col = cu CHR '':'' \<and> length r2 < length cs then
                        (case parse_value r2 of
                           None \<Rightarrow> None
                         | Some (v, r3) \<Rightarrow>
                             if length r3 < length r2 then
                               (case skip_ws r3 of
                                  [] \<Rightarrow> None
                                | d # r4 \<Rightarrow>
                                    if d = cu CHR '','' then parse_members (AList.update k v acc) r4
                                    else if d = cu CHR ''}'' then Some (AList.update k v acc, r4)
                                    else None)
                             else None)
                      else None))
          else None)"
  by pat_completeness auto

termination
proof (relation "measure (\<lambda>x. case x of
          Inl cs \<Rightarrow> 2 * length cs
        | Inr (Inl (acc, cs)) \<Rightarrow> 2 * length cs + 1
        | Inr (Inr (acc, cs)) \<Rightarrow> 2 * length cs + 1)", goal_cases)
  case 1 show ?case by simp
next
  case 2 then show ?case by (auto dest: skip_ws_Cons_length)
next
  case 3 then show ?case by (auto dest: skip_ws_Cons_length)
next
  case 4 then show ?case by simp
next
  case 5 then show ?case by (auto dest!: skip_ws_Cons_length)
next
  case 6 then show ?case by simp
next
  case 7 then show ?case by (auto dest!: skip_ws_Cons_length)
qed

declare parse_value.simps [simp del] parse_elements.simps [simp del]
  parse_members.simps [simp del]

definition JSON_parse :: "jsstring \<Rightarrow> jsval option" where
  "JSON_parse text =
     (case parse_value text of
        None \<Rightarrow> None
      | Some (v, r) \<Rightarrow> if skip_ws r = [] then Some v else None)"

subsection \<open>Truthiness\<close>

text \<open>
  \<open>null\<close>, \<open>false\<close>, the empty string and the numbers \<open>0\<close> and \<open>-0\<close> are falsy; every
  object and every array is truthy. A number literal denotes the double nearest to its
  decimal value \<open>m * 10 ^ e\<close> (ties to even), which is zero exactly when that value is at
  most \<open>2 ^ -1075\<close>, half of the least positive double.
\<close>

definition digits_int :: "jsstring \<Rightarrow> int" where
  "digits_int s = foldl (\<lambda>a c. 10 * a + uint (c - cu CHR ''0'')) 0 s"

definition number_is_zero :: "jsstring \<Rightarrow> bool" where
  "number_is_zero lexeme =
     (let unsigned =
            (case lexeme of
               [] \<Rightarrow> lexeme
             | c # r \<Rightarrow> if c = cu CHR ''-'' then r else lexeme);
          ip = takeWhile is_digit unsigned;
          r1 = dropWhile is_digit unsigned;
          fp =
            (case r1 of
               [] \<Rightarrow> []
             | c # r \<Rightarrow> if c = cu CHR ''.'' then takeWhile is_digit r else []);
          r2 =
            (case r1 of
               [] \<Rightarrow> r1
             | c # r \<Rightarrow> if c = cu CHR ''.'' then dropWhile is_digit r else r1);
          ex =
            (case r2 of
               [] \<Rightarrow> 0
             | c # r \<Rightarrow>
                 if c = cu CHR ''e'' \<or> c = cu CHR ''E'' then
                   (case r of
                      [] \<Rightarrow> 0
                    | sg # t \<Rightarrow>
                        if sg = cu CHR ''-'' then - digits_int t
                        else if sg = cu CHR ''+'' then digits_int t
                        else digits_int r)
                 else 0);
          m = digits_int (ip @ fp);
          e = ex - int (length fp)
      in m = 0 \<or> (e < 0 \<and> m * 2 ^ 1075 \<le> 10 ^ nat (- e)))"

fun truthy :: "jsval \<Rightarrow> bool" where
  "truthy JNull = False"
| "truthy (JBool b) = b"
| "truthy (JNum n) = (\<not> number_is_zero n)"
| "truthy (JStr x) = truthy_string x"
| "truthy (JArr xs) = True"
| "truthy (JObj ps) = True"

section \<open>The declared types of the response\<close>

text \<open>
  The interfaces of lines 6 to 17. \<open>severity\<close> is kept as a string: the response schema
  asks for a string, and \<open>AlertIcon\<close> takes any string.
\<close>

record InteractionResult =
  severity :: jsstring
  drugs :: "jsstring list"
  mechanism :: jsstring
  clinicalEffect :: jsstring
  recommendation :: jsstring

record DDIResponse =
  interactions :: "InteractionResult list"
  summary :: jsstring

text \<open>
  When a parsed value has the shape of the interfaces, the typed value it stands for.
  Further properties are allowed, as in TypeScript.
\<close>

fun as_string :: "jsval \<Rightarrow> jsstring option" where
  "as_string (JStr x) = Some x"
| "as_string _ = None"

fun as_array :: "jsval \<Rightarrow> jsval list option" where
  "as_array (JArr xs) = Some xs"
| "as_array _ = None"

fun all_some :: "'a option list \<Rightarrow> 'a list option" where
  "all_some [] = Some []"
| "all_some (None # xs) = None"
| "all_some (Some x # xs) = map_option ((#) x) (all_some xs)"

definition string_field :: "(jsstring \<times> jsval) list \<Rightarrow> string \<Rightarrow> jsstring option" where
  "string_field ps k = Option.bind (map_of ps (js k)) as_string"

definition array_field :: "(jsstring \<times> jsval) list \<Rightarrow> string \<Rightarrow> jsval list option" where
  "array_field ps k = Option.bind (map_of ps (js k)) as_array"

definition as_InteractionResult :: "jsval \<Rightarrow> InteractionResult option" where
  "as_InteractionResult v =
     (case v of
        JObj ps \<Rightarrow>
          (case (string_field ps ''severity'',
                 Option.bind (array_field ps ''drugs'') (\<lambda>ds. all_some (map as_string ds)),
                 string_field ps ''mechanism'',
                 string_field ps ''clinicalEffect'',
                 string_field ps ''recommendation'') of
             (Some sv, Some ds, Some m, Some c, Some r) \<Rightarrow>
               Some \<lparr> severity = sv, drugs = ds, mechanism = m, clinicalEffect = c,
                      recommendation = r \<rparr>
           | _ \<Rightarrow> None)
      | _ \<Rightarrow> None)"

definition as_DDIResponse :: "jsval \<Rightarrow> DDIResponse option" where
  "as_DDIResponse v =
     (case v of
        JObj ps \<Rightarrow>
          (case (Option.bind (array_field ps ''interactions'')
                   (\<lambda>xs. all_some (map as_InteractionResult xs)),
                 string_field ps ''summary'') of
             (Some rs, Some sm) \<Rightarrow> Some \<lparr> interactions = rs, summary = sm \<rparr>
           | _ \<Rightarrow> None)
      | _ \<Rightarrow> None)"

section \<open>\<open>AlertIcon\<close>: the class of a severity\<close>

text \<open>
  \<open>colors\<close> is an object literal, so \<open>colors[severity]\<close> finds its four own properties
  and, for any other key, the properties every object inherits from \<open>Object.prototype\<close>.
  Those are functions (or, for \<open>__proto__\<close>, the prototype object), all truthy and none a
  string; a key that is found nowhere gives \<open>undefined\<close>.
\<close>

definition colors :: "(jsstring \<times> jsstring) list" where
  "colors =
     [(js ''Minor'', js ''text-blue-500''),
      (js ''Moderate'', js ''text-yellow-500''),
      (js ''Major'', js ''text-orange-500''),
      (js ''Contraindicated'', js ''text-red-600'')]"

definition Object_prototype_keys :: "jsstring list" where
  "Object_prototype_keys =
     [js ''constructor'', js ''__defineGetter__'', js ''__defineSetter__'',
      js ''hasOwnProperty'', js ''__lookupGetter__'', js ''__lookupSetter__'',
      js ''isPrototypeOf'', js ''propertyIsEnumerable'', js ''toString'', js ''valueOf'',
      js ''__proto__'', js ''toLocaleString'']"

datatype property = Undefined | Own jsstring | Inherited jsstring

definition colors_get :: "jsstring \<Rightarrow> property" where
  "colors_get k =
     (case map_of colors k of
        Some c \<Rightarrow> Own c
      | None \<Rightarrow> if k \<in> set Object_prototype_keys then Inherited k else Undefined)"

text \<open>
  The value given to \<open>className\<close>: a class string, or the inherited member of that name
  when the lookup found one.
\<close>

datatype class_value = ClassName jsstring | NotAString jsstring

definition AlertIcon :: "jsstring \<Rightarrow> class_value" where
  "AlertIcon sev =
     (case colors_get sev of
        Own c \<Rightarrow> if truthy_string c then ClassName c else ClassName (js ''text-gray-500'')
      | Inherited k \<Rightarrow> NotAString k
      | Undefined \<Rightarrow> ClassName (js ''text-gray-500''))"

section \<open>Persisted storage\<close>

text \<open>
  \<open>localStorage\<close> is a key-value store of strings; \<open>getItem\<close> of an absent key is
  \<open>null\<close>, here \<open>None\<close>. Writing is taken to succeed (no quota or availability error).
\<close>

type_synonym storage = "jsstring \<rightharpoonup> jsstring"

definition getItem :: "storage \<Rightarrow> jsstring \<Rightarrow> jsstring option" where
  "getItem st k = st k"

definition setItem :: "storage \<Rightarrow> jsstring \<Rightarrow> jsstring \<Rightarrow> storage" where
  "setItem st k v = st(k \<mapsto> v)"

definition clear :: "storage \<Rightarrow> storage" where
  "clear st = Map.empty"

definition key_onboarded :: jsstring where
  "key_onboarded = js ''d-di-onboarded''"

definition key_agent_name :: jsstring where
  "key_agent_name = js ''d-di-agent-name''"

section \<open>The state of the \<open>App\<close> component\<close>

text \<open>
  One field per \<open>useState\<close> variable (lines 42 to 48). \<open>results\<close> holds whatever value
  \<open>JSON.parse\<close> returned: the cast \<open>as DDIResponse\<close> checks nothing at run time.
\<close>

record app_state =
  onboarded :: bool
  agentName :: jsstring
  inputName :: jsstring
  drugs :: jsstring
  loading :: bool
  results :: jsval
  error :: "jsstring option"

text \<open>The initial state, read from storage by the \<open>useState\<close> initialisers.\<close>

definition App_init :: "storage \<Rightarrow> app_state" where
  "App_init st =
     \<lparr> onboarded = (getItem st key_onboarded = Some (js ''true'')),
       agentName =
         (case getItem st key_agent_name of
            None \<Rightarrow> []
          | Some v \<Rightarrow> if truthy_string v then v else []),
       inputName = [],
       drugs = [],
       loading = False,
       results = JNull,
       error = None \<rparr>"

text \<open>
  A running page: the storage, the component state, whether a call to the service is
  awaiting its answer, and whether the component tree is still mounted. A render that
  throws unmounts the tree (there is no error boundary around \<open>App\<close>) and leaves a blank
  page; \<open>app\<close> then keeps the state that could not be rendered.
\<close>

record world =
  store :: storage
  app :: app_state
  pending :: bool
  mounted :: bool

definition boot :: "storage \<Rightarrow> world" where
  "boot st = \<lparr> store = st, app = App_init st, pending = False, mounted = True \<rparr>"

datatype screen = OnboardingScreen | MainScreen

definition screen_of :: "app_state \<Rightarrow> screen" where
  "screen_of s = (if \<not> onboarded s then OnboardingScreen else MainScreen)"

subsection \<open>Onboarding\<close>

definition handleStart :: "world \<Rightarrow> world" where
  "handleStart w =
     (if truthy_string (trim (inputName (app w))) then
        w \<lparr> store :=
              setItem (setItem (store w) key_agent_name (trim (inputName (app w))))
                key_onboarded (js ''true''),
            app := (app w) \<lparr> agentName := trim (inputName (app w)), onboarded := True \<rparr> \<rparr>
      else w)"

definition start_disabled :: "app_state \<Rightarrow> bool" where
  "start_disabled s = (\<not> truthy_string (trim (inputName s)))"

subsection \<open>Reset\<close>

text \<open>
  The Settings button (line 270): \<open>localStorage.clear()\<close>, then the page is reloaded, which
  abandons any call in flight and mounts the component anew.
\<close>

definition reset :: "world \<Rightarrow> world" where
  "reset w = boot (clear (store w))"

subsection \<open>The query controller\<close>

text \<open>
  The request built at lines 67 to 99. The template literals splice \<open>drugs\<close> (as typed,
  not trimmed) and \<open>agentName\<close> into fixed text.
\<close>

datatype schema =
    SString "jsstring option"
  | SArray schema
  | SObject "(jsstring \<times> schema) list" "jsstring list"

definition interaction_schema :: schema where
  "interaction_schema =
     SObject
       [(js ''severity'', SString (Some (js ''Minor, Moderate, Major, or Contraindicated''))),
        (js ''drugs'', SArray (SString None)),
        (js ''mechanism'', SString None),
        (js ''clinicalEffect'', SString None),
        (js ''recommendation'', SString None)]
       [js ''severity'', js ''drugs'', js ''mechanism'', js ''clinicalEffect'',
        js ''recommendation'']"

definition response_schema :: schema where
  "response_schema =
     SObject
       [(js ''interactions'', SArray interaction_schema),
        (js ''summary'', SString (Some (js ''A brief professional summary of the findings.'')))]
       [js ''interactions'', js ''summary'']"

record request =
  model :: jsstring
  contents :: jsstring
  systemInstruction :: jsstring
  responseMimeType :: jsstring
  responseSchema :: schema

definition generateContent_request :: "app_state \<Rightarrow> request" where
  "generateContent_request s =
     \<lparr> model = js ''gemini-3-pro-preview'',
       contents =
         js ''Analyze the following drugs for potential interactions: '' @ drugs s
         @ js ''. Provide a detailed pharmacological breakdown.'',
       systemInstruction =
         js ''You are '' @ agentName s
         @ js '', an expert clinical pharmacist AI agent assisting pharmacy students. ''
         @ [0x0A]
         @ js ''          Use your deep pharmacological knowledge base to identify drug-drug interactions. ''
         @ [0x0A]
         @ js ''          Respond ONLY in JSON format following the schema provided. ''
         @ [0x0A]
         @ js ''          Include severity levels, clinical mechanisms, and evidence-based recommendations.''
         @ [0x0A]
         @ js ''          Be precise, professional, and emphasize patient safety.'',
       responseMimeType = js ''application/json'',
       responseSchema = response_schema \<rparr>"

text \<open>
  What the outside does during one invocation: creating the client throws (nothing is
  sent), the call throws or its promise rejects, or the call answers with a response whose
  \<open>text\<close> is a string or \<open>undefined\<close> (\<open>None\<close>).
\<close>

datatype service = ClientThrows | CallThrows | Responds "jsstring option"

definition error_message :: jsstring where
  "error_message = js ''Failed to fetch interactions. Please ensure you enter valid drug names.''"

text \<open>\<open>response.text || "{}"\<close>\<close>

definition text_or_default :: "jsstring option \<Rightarrow> jsstring" where
  "text_or_default t =
     (case t of
        None \<Rightarrow> js ''{}''
      | Some x \<Rightarrow> if truthy_string x then x else js ''{}'')"

text \<open>Lines 60 to 63: \<open>None\<close> is the early return.\<close>

definition checkInteractions_start :: "app_state \<Rightarrow> app_state option" where
  "checkInteractions_start s =
     (if \<not> truthy_string (trim (drugs s)) then None
      else Some (s \<lparr> loading := True, error := None, results := JNull \<rparr>))"

text \<open>The body of \<open>try\<close>: \<open>None\<close> when something in it throws.\<close>

definition try_block :: "service \<Rightarrow> app_state \<Rightarrow> app_state option" where
  "try_block sv s =
     (case sv of
        ClientThrows \<Rightarrow> None
      | CallThrows \<Rightarrow> None
      | Responds t \<Rightarrow>
          (case JSON_parse (text_or_default t) of
             None \<Rightarrow> None
           | Some data \<Rightarrow> Some (s \<lparr> results := data \<rparr>)))"

definition catch_block :: "app_state \<Rightarrow> app_state" where
  "catch_block s = s \<lparr> error := Some error_message \<rparr>"

definition finally_block :: "app_state \<Rightarrow> app_state" where
  "finally_block s = s \<lparr> loading := False \<rparr>"

text \<open>Lines 65 to 108, run on the state that lines 61 to 63 left.\<close>

definition checkInteractions_settle :: "service \<Rightarrow> app_state \<Rightarrow> app_state" where
  "checkInteractions_settle sv s =
     finally_block (case try_block sv s of None \<Rightarrow> catch_block s | Some s' \<Rightarrow> s')"

definition requests_sent :: "service \<Rightarrow> app_state \<Rightarrow> request list" where
  "requests_sent sv s =
     (case sv of ClientThrows \<Rightarrow> [] | _ \<Rightarrow> [generateContent_request s])"

text \<open>One whole invocation: the state it leaves and the requests it sent.\<close>

definition checkInteractions :: "service \<Rightarrow> app_state \<Rightarrow> app_state \<times> request list" where
  "checkInteractions sv s =
     (case checkInteractions_start s of
        None \<Rightarrow> (s, [])
      | Some s1 \<Rightarrow> (checkInteractions_settle sv s1, requests_sent sv s1))"

definition submit_disabled :: "app_state \<Rightarrow> bool" where
  "submit_disabled s = (loading s \<or> \<not> truthy_string (trim (drugs s)))"

subsection \<open>The request lifecycle\<close>

text \<open>
  The lifecycle is read off the three state variables with the tests the component makes
  of them: \<open>loading\<close> (lines 177 and 180), \<open>error &&\<close> (line 191) and \<open>results &&\<close>
  (line 197); idle when none holds. \<open>lifecycles\<close> lists every one that applies.
\<close>

datatype lifecycle = Idle | Loading | Success jsval | Failed jsstring

definition lifecycles :: "app_state \<Rightarrow> lifecycle list" where
  "lifecycles s =
     (let ls =
        (if loading s then [Loading] else [])
        @ (case error s of
             None \<Rightarrow> []
           | Some m \<Rightarrow> if truthy_string m then [Failed m] else [])
        @ (if truthy (results s) then [Success (results s)] else [])
      in if ls = [] then [Idle] else ls)"

section \<open>Rendering of a result\<close>

text \<open>
  The results panel (lines 197 to 252) for a value of the declared type: the count badge,
  the quoted summary when it is non-empty, one card per interaction, and the note shown
  for an empty list.
\<close>

function Number_toString :: "nat \<Rightarrow> jsstring" where
  "Number_toString n =
     (if n < 10 then [cu CHR ''0'' + of_nat n]
      else Number_toString (n div 10) @ [cu CHR ''0'' + of_nat (n mod 10)])"
  by pat_completeness auto
termination
  by (relation "measure id") auto

declare Number_toString.simps [simp del]


record card_view =
  drug_chips :: "jsstring list"
  icon_class :: class_value
  severity_label :: jsstring
  mechanism_text :: jsstring
  clinicalEffect_text :: jsstring
  recommendation_text :: jsstring

record results_view =
  count_badge :: jsstring
  summary_quote :: "jsstring option"
  cards :: "card_view list"
  empty_note :: "jsstring option"

definition render_card :: "InteractionResult \<Rightarrow> card_view" where
  "render_card i =
     \<lparr> drug_chips = map (\<lambda>d. d) (InteractionResult.drugs i),
       icon_class = AlertIcon (severity i),
       severity_label = severity i,
       mechanism_text = mechanism i,
       clinicalEffect_text = clinicalEffect i,
       recommendation_text = recommendation i \<rparr>"

definition render_results :: "DDIResponse \<Rightarrow> results_view" where
  "render_results r =
     \<lparr> count_badge = Number_toString (length (interactions r)) @ js '' Found'',
       summary_quote =
         (if truthy_string (summary r) then Some ([0x22] @ summary r @ [0x22]) else None),
       cards = map render_card (interactions r),
       empty_note =
         (if length (interactions r) = 0
          then Some (js ''No significant interactions detected for the provided list.'')
          else None) \<rparr>"

section \<open>Rendering of the stored value\<close>

text \<open>
  What lines 197 to 252 do with whatever value \<open>results\<close> holds. A falsy value shows no
  panel. For a truthy one, \<open>results.interactions.length\<close> and \<open>results.interactions.map\<close>
  throw unless \<open>interactions\<close> is an array, and \<open>interaction.drugs.map\<close> throws unless the
  item is an object whose \<open>drugs\<close> is an array. React renders a string, a number and an
  array of such children, renders nothing for \<open>null\<close>, a boolean or \<open>undefined\<close>, and throws
  on a plain object given as a child.
\<close>

fun valid_child :: "jsval \<Rightarrow> bool" where
  "valid_child (JObj ps) = False"
| "valid_child (JArr xs) = (\<forall>x \<in> set xs. valid_child x)"
| "valid_child JNull = True"
| "valid_child (JBool b) = True"
| "valid_child (JNum n) = True"
| "valid_child (JStr x) = True"

definition field_renders :: "(jsstring \<times> jsval) list \<Rightarrow> string \<Rightarrow> bool" where
  "field_renders ps k = (case map_of ps (js k) of None \<Rightarrow> True | Some x \<Rightarrow> valid_child x)"

definition card_renders :: "jsval \<Rightarrow> bool" where
  "card_renders i =
     (case i of
        JObj ps \<Rightarrow>
          (case map_of ps (js ''drugs'') of
             Some (JArr ds) \<Rightarrow> \<forall>d \<in> set ds. valid_child d
           | _ \<Rightarrow> False)
          \<and> field_renders ps ''severity''
          \<and> field_renders ps ''mechanism''
          \<and> field_renders ps ''clinicalEffect''
          \<and> field_renders ps ''recommendation''
      | _ \<Rightarrow> False)"

definition panel_renders :: "jsval \<Rightarrow> bool" where
  "panel_renders v =
     (case v of
        JObj ps \<Rightarrow>
          (case map_of ps (js ''interactions'') of
             Some (JArr items) \<Rightarrow>
               (case map_of ps (js ''summary'') of
                  None \<Rightarrow> True
                | Some sm \<Rightarrow> \<not> truthy sm \<or> valid_child sm)
               \<and> (\<forall>i \<in> set items. card_renders i)
           | _ \<Rightarrow> False)
      | _ \<Rightarrow> False)"

text \<open>The onboarding screen (lines 111 to 146) does not look at \<open>results\<close>.\<close>

definition render_throws :: "app_state \<Rightarrow> bool" where
  "render_throws s = (onboarded s \<and> truthy (results s) \<and> \<not> panel_renders (results s))"

text \<open>The render that follows a change of state.\<close>

definition rendered :: "world \<Rightarrow> world" where
  "rendered w = (if render_throws (app w) then w \<lparr> mounted := False \<rparr> else w)"

section \<open>The page as a state machine\<close>

text \<open>
  The events a page can receive. A control only exists on the screen that shows it while
  the tree is mounted, and a disabled button does not fire. \<open>Settles\<close> is the end of the
  call in flight; on an unmounted tree its setters do nothing. Every handler that sets
  state is followed by a render.
\<close>

datatype event =
    ChangeInputName jsstring
  | ClickGetStarted
  | ChangeDrugs jsstring
  | ClickAnalyze
  | Settles service
  | ClickSettings
  | Reload

fun step :: "event \<Rightarrow> world \<Rightarrow> world" where
  "step (ChangeInputName v) w =
     (if mounted w \<and> \<not> onboarded (app w)
      then rendered (w \<lparr> app := (app w) \<lparr> inputName := v \<rparr> \<rparr>) else w)"
| "step ClickGetStarted w =
     (if mounted w \<and> \<not> onboarded (app w) \<and> \<not> start_disabled (app w)
      then rendered (handleStart w) else w)"
| "step (ChangeDrugs v) w =
     (if mounted w \<and> onboarded (app w)
      then rendered (w \<lparr> app := (app w) \<lparr> drugs := v \<rparr> \<rparr>) else w)"
| "step ClickAnalyze w =
     (if mounted w \<and> onboarded (app w) \<and> \<not> submit_disabled (app w) then
        (case checkInteractions_start (app w) of
           None \<Rightarrow> w
         | Some s1 \<Rightarrow> rendered (w \<lparr> app := s1, pending := True \<rparr>))
      else w)"
| "step (Settles sv) w =
     (if mounted w \<and> pending w
      then rendered (w \<lparr> app := checkInteractions_settle sv (app w), pending := False \<rparr>)
      else w)"
| "step ClickSettings w = (if mounted w \<and> onboarded (app w) then reset w else w)"
| "step Reload w = boot (store w)"

fun run :: "event list \<Rightarrow> world \<Rightarrow> world" where
  "run [] w = w"
| "run (e # es) w = run es (step e w)"

section \<open>Sample sessions\<close>

text \<open>
  The inputs of the scenarios: a name typed with spaces around it, a drug list, and the two
  service answers (one interaction of severity Major; no interaction) with the typed
  values they stand for.
\<close>

definition quoted :: "string \<Rightarrow> jsstring" where
  "quoted s = [0x22] @ js s @ [0x22]"

definition scenario_A_text :: jsstring where
  "scenario_A_text =
     js ''{'' @ quoted ''interactions'' @ js '':[{''
       @ quoted ''severity'' @ js '':'' @ quoted ''Major'' @ js '',''
       @ quoted ''drugs'' @ js '':['' @ quoted ''Warfarin'' @ js '','' @ quoted ''Aspirin'' @ js ''],''
       @ quoted ''mechanism'' @ js '':'' @ quoted ''...'' @ js '',''
       @ quoted ''clinicalEffect'' @ js '':'' @ quoted ''...'' @ js '',''
       @ quoted ''recommendation'' @ js '':'' @ quoted ''...'' @ js ''}],''
       @ quoted ''summary'' @ js '':'' @ quoted ''...'' @ js ''}''"

definition scenario_A_value :: jsval where
  "scenario_A_value =
     JObj
       [(js ''interactions'',
         JArr
           [JObj
              [(js ''severity'', JStr (js ''Major'')),
               (js ''drugs'', JArr [JStr (js ''Warfarin''), JStr (js ''Aspirin'')]),
               (js ''mechanism'', JStr (js ''...'')),
               (js ''clinicalEffect'', JStr (js ''...'')),
               (js ''recommendation'', JStr (js ''...''))]]),
        (js ''summary'', JStr (js ''...''))]"

definition scenario_A_result :: DDIResponse where
  "scenario_A_result =
     \<lparr> interactions =
         [\<lparr> severity = js ''Major'', drugs = [js ''Warfarin'', js ''Aspirin''],
            mechanism = js ''...'', clinicalEffect = js ''...'', recommendation = js ''...'' \<rparr>],
       summary = js ''...'' \<rparr>"

definition scenario_B_text :: jsstring where
  "scenario_B_text =
     js ''{'' @ quoted ''interactions'' @ js '':[], ''
       @ quoted ''summary'' @ js '':'' @ quoted ''No significant interactions found.'' @ js ''}''"

definition scenario_B_result :: DDIResponse where
  "scenario_B_result =
     \<lparr> interactions = [], summary = js ''No significant interactions found.'' \<rparr>"

text \<open>Two answers that are valid JSON but lack a required field.\<close>

definition no_interactions_text :: jsstring where
  "no_interactions_text = js ''{'' @ quoted ''summary'' @ js '':'' @ quoted ''ok'' @ js ''}''"

definition no_summary_text :: jsstring where
  "no_summary_text = js ''{'' @ quoted ''interactions'' @ js '':[]}''"

definition onboard_and_type :: "event list" where
  "onboard_and_type =
     [ChangeInputName (js '' Pharmy ''), ClickGetStarted, ChangeDrugs (js ''Warfarin, Aspirin'')]"

section \<open>Invariants of the page\<close>

text \<open>
  A call is in flight exactly while \<open>loading\<close> is set; while loading neither a message nor
  a result is held; and a message and a result are never held together.
\<close>

definition lifecycle_inv :: "world \<Rightarrow> bool" where
  "lifecycle_inv w \<longleftrightarrow>
     (pending w \<longleftrightarrow> loading (app w))
     \<and> (loading (app w) \<longrightarrow> error (app w) = None \<and> results (app w) = JNull)
     \<and> (error (app w) = None \<or> results (app w) = JNull)"

text \<open>
  The agent name of the session is the stored one (empty when none is stored), it is its
  own trimmed form, and the stored flag \<open>true\<close> comes with a non-empty name.
\<close>

definition name_inv :: "world \<Rightarrow> bool" where
  "name_inv w \<longleftrightarrow>
     trim (agentName (app w)) = agentName (app w)
     \<and> agentName (app w) = (case store w key_agent_name of None \<Rightarrow> [] | Some v \<Rightarrow> v)
     \<and> (onboarded (app w) \<longrightarrow> store w key_onboarded = Some (js ''true''))
     \<and> (store w key_onboarded = Some (js ''true'') \<longrightarrow> agentName (app w) \<noteq> [])"

section \<open>Facts about strings\<close>

lemma cu_eq_iff: "cu a = cu b \<longleftrightarrow> a = b"
proof
  assume h: "cu a = cu b"
  have lt: "(of_char c :: nat) < 2 ^ 16" for c :: char
    by (rule less_trans [OF nat_of_char_less_256]) simp
  from h have "(of_nat (of_char a) :: 16 word) = of_nat (of_char b)"
    by (simp add: cu_def of_nat_of_char)
  then have "unat (of_nat (of_char a) :: 16 word) = unat (of_nat (of_char b) :: 16 word)"
    by simp
  then have "(of_char a :: nat) = of_char b"
    using lt [of a] lt [of b] by (simp add: unat_of_nat take_bit_nat_eq_self)
  then show "a = b" by simp
qed simp

lemma inj_cu: "inj cu"
  by (rule injI) (simp add: cu_eq_iff)

lemma js_eq_iff: "js a = js b \<longleftrightarrow> a = b"
  unfolding js_def using inj_cu by (rule inj_map_eq_map)

lemma js_eq_Nil [simp]: "js a = [] \<longleftrightarrow> a = []"
  by (simp add: js_def)

lemma keys_distinct: "key_agent_name \<noteq> key_onboarded"
  by (simp add: key_agent_name_def key_onboarded_def js_eq_iff)

lemma dropWhile_all_ws:
  "(\<forall>c \<in> set (dropWhile is_ws s). is_ws c) \<longleftrightarrow> (\<forall>c \<in> set s. is_ws c)"
  by (induction s) auto

lemma trim_Nil_iff: "trim s = [] \<longleftrightarrow> (\<forall>c \<in> set s. is_ws c)"
  by (simp add: trim_def dropWhile_eq_Nil_conv dropWhile_all_ws)

lemma trim_Nil [simp]: "trim [] = []"
  by (simp add: trim_def)

lemma trim_no_leading: "trim s \<noteq> [] \<Longrightarrow> \<not> is_ws (hd (trim s))"
proof -
  assume ne: "trim s \<noteq> []"
  define t where "t = dropWhile is_ws s"
  define u where "u = dropWhile is_ws (rev t)"
  have tr: "trim s = rev u" by (simp add: trim_def t_def u_def)
  with ne have une: "u \<noteq> []" by simp
  then have tne: "t \<noteq> []" by (auto simp: u_def)
  have ht: "\<not> is_ws (hd t)" using tne unfolding t_def by (rule hd_dropWhile)
  obtain p where p: "rev t = p @ u"
    unfolding u_def by (metis takeWhile_dropWhile_id)
  then have "t = rev u @ rev p" by (metis rev_append rev_rev_ident)
  with une have "hd t = hd (rev u)" by simp
  with ht tr show ?thesis by simp
qed

lemma trim_no_trailing: "trim s \<noteq> [] \<Longrightarrow> \<not> is_ws (last (trim s))"
proof -
  assume ne: "trim s \<noteq> []"
  define u where "u = dropWhile is_ws (rev (dropWhile is_ws s))"
  have tr: "trim s = rev u" by (simp add: trim_def u_def)
  with ne have une: "u \<noteq> []" by simp
  then have "\<not> is_ws (hd u)" unfolding u_def by (rule hd_dropWhile)
  with une tr show ?thesis by (simp add: last_rev)
qed

lemma trim_idem: "trim (trim s) = trim s"
proof (cases "trim s = []")
  case True
  have "trim [] = []" by (simp add: trim_def)
  with True show ?thesis by simp
next
  case False
  have a: "dropWhile is_ws (trim s) = trim s"
    using trim_no_leading [OF False] False by (cases "trim s") auto
  have "hd (rev (trim s)) = last (trim s)"
    by (simp add: hd_rev)
  with trim_no_trailing [OF False] have "\<not> is_ws (hd (rev (trim s)))"
    by simp
  then have b: "dropWhile is_ws (rev (trim s)) = rev (trim s)"
    using False by (cases "rev (trim s)") auto
  show ?thesis
    unfolding trim_def [of "trim s"] a b by simp
qed

section \<open>The parser consumes input\<close>

text \<open>
  Every parser that returns a value returns a strictly shorter rest. So the length checks
  in \<open>parse_elements\<close> and \<open>parse_members\<close> always pass, and both functions satisfy the
  equations without them.
\<close>

lemma parse_string_chars_shorter:
  "parse_string_chars acc cs = Some (k, r) \<Longrightarrow> length r < length cs"
proof (induction acc cs rule: parse_string_chars.induct)
  case (1 acc)
  then show ?case by simp
next
  case (2 acc c r)
  then show ?case
    by (auto split: if_splits list.splits option.splits) fastforce+
qed

lemma strip_prefix_shorter:
  "p \<noteq> [] \<Longrightarrow> strip_prefix p cs = Some r \<Longrightarrow> length r < length cs"
  by (cases cs) (auto simp: strip_prefix_def split: if_splits)

lemma int_part_shorter: "int_part cs = Some (ip, r) \<Longrightarrow> length r < length cs"
  by (auto simp: int_part_def less_Suc_eq_le length_dropWhile_le split: list.splits if_splits)

lemma frac_part_shorter: "frac_part cs = Some (fp, r) \<Longrightarrow> length r \<le> length cs"
  by (auto simp: frac_part_def le_SucI length_dropWhile_le split: list.splits if_splits)

lemma exp_part_shorter: "exp_part cs = Some (ep, r) \<Longrightarrow> length r \<le> length cs"
  by (auto simp: exp_part_def Let_def le_SucI length_dropWhile_le
      split: list.splits if_splits prod.splits
      intro: le_trans [OF length_dropWhile_le])

lemma parse_number_shorter: "parse_number cs = Some (n, r) \<Longrightarrow> length r < length cs"
proof -
  assume h: "parse_number cs = Some (n, r)"
  obtain sg r0 where s: "(case cs of [] \<Rightarrow> ([], cs)
         | c # r \<Rightarrow> if c = cu CHR ''-'' then ([c], r) else ([], cs)) = (sg, r0)"
    by fastforce
  then have l0: "length r0 \<le> length cs"
    by (auto split: list.splits if_splits)
  from h s obtain ip r1 fp r2 ep where
    "int_part r0 = Some (ip, r1)" "frac_part r1 = Some (fp, r2)" "exp_part r2 = Some (ep, r)"
    by (auto simp: parse_number_def split: option.splits)
  with l0 int_part_shorter frac_part_shorter exp_part_shorter show ?thesis
    by fastforce
qed

lemma parse_literal_shorter: "parse_literal cs = Some (v, r) \<Longrightarrow> length r < length cs"
  by (auto simp: parse_literal_def split: option.splits
      dest: parse_number_shorter strip_prefix_shorter [rotated])

lemma parse_elements_shorter:
  "parse_elements acc cs = Some (vs, r) \<Longrightarrow> length r < length cs"
proof (induction "length cs" arbitrary: acc cs vs r rule: less_induct)
  case less
  from less.prems obtain v r1 where
    pv: "parse_value cs = Some (v, r1)" and g: "length r1 < length cs"
    unfolding parse_elements.simps [of acc cs]
    by (auto split: option.splits if_splits)
  from less.prems pv g obtain d r2 where
    sk: "skip_ws r1 = d # r2"
    and rest: "(d = cu CHR '','' \<and> parse_elements (acc @ [v]) r2 = Some (vs, r))
               \<or> (d = cu CHR '']'' \<and> r = r2)"
    unfolding parse_elements.simps [of acc cs]
    by (auto split: list.splits if_splits)
  from sk have l2: "length r2 < length r1" by (rule skip_ws_Cons_length)
  from rest show ?case
  proof
    assume "d = cu CHR '','' \<and> parse_elements (acc @ [v]) r2 = Some (vs, r)"
    then have "length r < length r2"
      using less.hyps [of r2 "acc @ [v]" vs r] l2 g by simp
    with l2 g show ?thesis by simp
  next
    assume "d = cu CHR '']'' \<and> r = r2"
    with l2 g show ?thesis by simp
  qed
qed

lemma parse_members_step:
  assumes "parse_members acc cs = Some (ps, r)"
  shows "\<exists>acc' r4. length r4 < length cs \<and> (parse_members acc' r4 = Some (ps, r) \<or> r = r4)"
proof -
  have less3: "\<exists>acc' r4. length r4 < length cs \<and> (parse_members acc' r4 = Some (qs, t) \<or> t = r4)"
    if "length r2 < length cs" "length r3 < length r2" "skip_ws r3 = d # r4"
      "parse_members a r4 = Some (qs, t) \<or> t = r4"
    for r2 r3 d r4 a qs t
  proof -
    from that(3) have "length r4 < length r3" by (rule skip_ws_Cons_length)
    with that(1,2) have "length r4 < length cs" by simp
    with that(4) show ?thesis by blast
  qed
  from assms show ?thesis
    unfolding parse_members.simps [of acc cs]
    by (auto split: list.splits option.splits if_splits)
      (rule less3, assumption, assumption, assumption, blast)+
qed


lemma parse_members_shorter:
  "parse_members acc cs = Some (ps, r) \<Longrightarrow> length r < length cs"
proof (induction "length cs" arbitrary: acc cs rule: less_induct)
  case less
  from parse_members_step [OF less.prems] obtain acc' r4 where
    l: "length r4 < length cs" and rest: "parse_members acc' r4 = Some (ps, r) \<or> r = r4"
    by blast
  from rest show ?case
  proof
    assume "parse_members acc' r4 = Some (ps, r)"
    from less.hyps [OF l this] l show ?thesis by simp
  next
    assume "r = r4"
    with l show ?thesis by simp
  qed
qed

lemma parse_value_shorter: "parse_value cs = Some (v, r) \<Longrightarrow> length r < length cs"
proof -
  assume h: "parse_value cs = Some (v, r)"
  then obtain c r0 where sk: "skip_ws cs = c # r0"
    unfolding parse_value.simps [of cs] by (auto split: list.splits)
  then have l0: "length r0 < length cs" by (rule skip_ws_Cons_length)
  have l1: "length (c # r0) \<le> length cs"
    using length_skip_ws [of cs] sk by simp
  from h sk consider
      (obj0) d where "skip_ws r0 = d # r"
    | (obj) ps where "parse_members [] r0 = Some (ps, r)"
    | (arr) xs where "parse_elements [] r0 = Some (xs, r)"
    | (str) x where "parse_string_chars [] r0 = Some (x, r)"
    | (lit) "parse_literal (c # r0) = Some (v, r)"
    unfolding parse_value.simps [of cs] by (auto split: list.splits if_splits)
  then show ?thesis
  proof cases
    case obj0
    then have "length r < length r0" by (rule skip_ws_Cons_length)
    with l0 show ?thesis by simp
  next
    case obj
    with l0 parse_members_shorter show ?thesis by fastforce
  next
    case arr
    with l0 parse_elements_shorter show ?thesis by fastforce
  next
    case str
    with l0 parse_string_chars_shorter show ?thesis by fastforce
  next
    case lit
    from parse_literal_shorter [OF this] l1 show ?thesis by simp
  qed
qed

lemma parse_elements_unguarded:
  "parse_elements acc cs =
     (case parse_value cs of
        None \<Rightarrow> None
      | Some (v, r) \<Rightarrow>
          (case skip_ws r of
             [] \<Rightarrow> None
           | d # r' \<Rightarrow>
               if d = cu CHR '','' then parse_elements (acc @ [v]) r'
               else if d = cu CHR '']'' then Some (acc @ [v], r')
               else None))"
  by (subst parse_elements.simps) (auto split: option.splits dest: parse_value_shorter)

lemma parse_members_unguarded:
  "parse_members acc cs =
     (case skip_ws cs of
        [] \<Rightarrow> None
      | q # r0 \<Rightarrow>
          if q = cu CHR 0x22 then
            (case parse_string_chars [] r0 of
               None \<Rightarrow> None
             | Some (k, r1) \<Rightarrow>
                 (case skip_ws r1 of
                    [] \<Rightarrow> None
                  | col # r2 \<Rightarrow>
                      if col = cu CHR '':'' then
                        (case parse_value r2 of
                           None \<Rightarrow> None
                         | Some (v, r3) \<Rightarrow>
                             (case skip_ws r3 of
                                [] \<Rightarrow> None
                              | d # r4 \<Rightarrow>
                                  if d = cu CHR '','' then parse_members (AList.update k v acc) r4
                                  else if d = cu CHR ''}'' then Some (AList.update k v acc, r4)
                                  else None))
                      else None))
          else None)"
proof -
  have g: "length r2 < length cs"
    if "skip_ws cs = q # r0" "parse_string_chars [] r0 = Some (k, r1)" "skip_ws r1 = col # r2"
    for q r0 k r1 col r2
    using skip_ws_Cons_length [OF that(1)] parse_string_chars_shorter [OF that(2)]
      skip_ws_Cons_length [OF that(3)]
    by simp
  show ?thesis
    by (subst parse_members.simps)
      (auto split: list.splits option.splits dest: parse_value_shorter g)
qed


section \<open>Onboarding and reset\<close>

text \<open>
  C6. For every typed name whose trimmed value is non-empty, \<open>handleStart\<close> writes the
  agent name and the flag \<open>true\<close> to storage and the session becomes onboarded (the main
  screen is shown); for every name whose trimmed value is empty it changes neither the
  storage nor the component state.
\<close>

theorem handleStart_contract:
  "(trim (inputName (app w)) \<noteq> [] \<longrightarrow>
      store (handleStart w) =
        (store w)(key_agent_name \<mapsto> trim (inputName (app w)), key_onboarded \<mapsto> js ''true'')
      \<and> getItem (store (handleStart w)) key_agent_name = Some (trim (inputName (app w)))
      \<and> getItem (store (handleStart w)) key_onboarded = Some (js ''true'')
      \<and> onboarded (app (handleStart w))
      \<and> agentName (app (handleStart w)) = trim (inputName (app w))
      \<and> screen_of (app (handleStart w)) = MainScreen
      \<and> onboarded (App_init (store (handleStart w))))
   \<and> (trim (inputName (app w)) = [] \<longrightarrow> handleStart w = w)"
  using keys_distinct
  by (simp add: handleStart_def truthy_string_def setItem_def getItem_def screen_of_def
      App_init_def)

theorem handleStart_contract_witness:
  "trim (inputName (app (run [ChangeInputName (js '' Pharmy '')] (boot Map.empty)))) \<noteq> []
   \<and> getItem (store (handleStart (run [ChangeInputName (js '' Pharmy '')] (boot Map.empty))))
        key_agent_name = Some (js ''Pharmy'')
   \<and> getItem (store (handleStart (run [ChangeInputName (js '' Pharmy '')] (boot Map.empty))))
        key_onboarded = Some (js ''true'')
   \<and> onboarded (app (handleStart (run [ChangeInputName (js '' Pharmy '')] (boot Map.empty))))
   \<and> trim (inputName (app (run [ChangeInputName (js ''  '')] (boot Map.empty)))) = []
   \<and> handleStart (run [ChangeInputName (js ''  '')] (boot Map.empty))
       = run [ChangeInputName (js ''  '')] (boot Map.empty)"
proof -
  let ?w1 = "run [ChangeInputName (js '' Pharmy '')] (boot Map.empty)"
  let ?w2 = "run [ChangeInputName (js ''  '')] (boot Map.empty)"
  have t1: "trim (inputName (app ?w1)) = js ''Pharmy''" by code_simp
  have n1: "trim (inputName (app ?w1)) \<noteq> []" by code_simp
  have t2: "trim (inputName (app ?w2)) = []" by code_simp
  from handleStart_contract [of ?w1] n1
  have "getItem (store (handleStart ?w1)) key_agent_name = Some (trim (inputName (app ?w1)))"
    and 2: "getItem (store (handleStart ?w1)) key_onboarded = Some (js ''true'')"
    and 3: "onboarded (app (handleStart ?w1))"
    by blast+
  then have 1: "getItem (store (handleStart ?w1)) key_agent_name = Some (js ''Pharmy'')"
    by (simp only: t1)
  from handleStart_contract [of ?w2] t2 have 4: "handleStart ?w2 = ?w2"
    by blast
  from n1 1 2 3 t2 4 show ?thesis by blast
qed

text \<open>
  C8. Reset clears every key of the storage, whatever it held, and the session mounted by
  the reload reads \<open>onboarded = false\<close>, has no agent name and shows the onboarding screen;
  a later reload finds the same.
\<close>

theorem reset_clears_everything:
  "store (reset w) = Map.empty
   \<and> getItem (store (reset w)) k = None
   \<and> \<not> onboarded (app (reset w))
   \<and> agentName (app (reset w)) = []
   \<and> screen_of (app (reset w)) = OnboardingScreen
   \<and> \<not> pending (reset w)
   \<and> boot (store (reset w)) = reset w"
  by (simp add: reset_def boot_def clear_def App_init_def getItem_def screen_of_def)

section \<open>The query controller\<close>

lemma start_fields:
  "checkInteractions_start s = Some s' \<Longrightarrow>
     agentName s' = agentName s \<and> onboarded s' = onboarded s \<and> drugs s' = drugs s
     \<and> inputName s' = inputName s \<and> loading s' \<and> error s' = None \<and> results s' = JNull"
  by (auto simp: checkInteractions_start_def split: if_splits)

lemma settle_fields [simp]:
  "agentName (checkInteractions_settle sv s) = agentName s"
  "onboarded (checkInteractions_settle sv s) = onboarded s"
  "drugs (checkInteractions_settle sv s) = drugs s"
  "inputName (checkInteractions_settle sv s) = inputName s"
  "\<not> loading (checkInteractions_settle sv s)"
  by (auto simp: checkInteractions_settle_def finally_block_def catch_block_def try_block_def
      split: service.splits option.splits)

lemma settle_error_or_result:
  "error s = None \<Longrightarrow> results s = JNull \<Longrightarrow>
     error (checkInteractions_settle sv s) = None \<or> results (checkInteractions_settle sv s) = JNull"
  by (auto simp: checkInteractions_settle_def finally_block_def catch_block_def try_block_def
      split: service.splits option.splits)

lemma settle_throws:
  "try_block sv s = None \<Longrightarrow>
     checkInteractions_settle sv s = s \<lparr> error := Some error_message, loading := False \<rparr>"
  by (simp add: checkInteractions_settle_def finally_block_def catch_block_def)

lemma settle_parsed:
  "JSON_parse (text_or_default t) = Some v \<Longrightarrow>
     checkInteractions_settle (Responds t) s = s \<lparr> results := v, loading := False \<rparr>"
  by (simp add: checkInteractions_settle_def finally_block_def try_block_def)

lemma start_nonempty:
  "trim (drugs s) \<noteq> [] \<Longrightarrow>
     checkInteractions_start s = Some (s \<lparr> loading := True, error := None, results := JNull \<rparr>)"
  by (simp add: checkInteractions_start_def truthy_string_def)

text \<open>
  C1. Whenever an invocation of \<open>checkInteractions\<close> that reaches the service has the
  client, the call or the parsing of the response throw, the state it leaves is Failed with
  exactly the fixed message, nothing is loading and the stored result is \<open>null\<close>: a result
  held before is gone.
\<close>

theorem failure_discards_result:
  assumes "trim (drugs s) \<noteq> []"
    and "sv = ClientThrows \<or> sv = CallThrows
         \<or> (\<exists>t. sv = Responds t \<and> JSON_parse (text_or_default t) = None)"
  shows "lifecycles (fst (checkInteractions sv s)) = [Failed error_message]
         \<and> error (fst (checkInteractions sv s)) = Some error_message
         \<and> error_message
             = js ''Failed to fetch interactions. Please ensure you enter valid drug names.''
         \<and> results (fst (checkInteractions sv s)) = JNull
         \<and> \<not> loading (fst (checkInteractions sv s))"
proof -
  let ?s1 = "s \<lparr> loading := True, error := None, results := JNull \<rparr>"
  from assms(2) have "try_block sv ?s1 = None"
    by (auto simp: try_block_def)
  then show ?thesis
    by (simp add: checkInteractions_def start_nonempty [OF assms(1)] settle_throws
        lifecycles_def truthy_string_def error_message_def)
qed

theorem failure_discards_result_witness:
  "trim (drugs (app (run (onboard_and_type @ [ClickAnalyze, Settles (Responds (Some scenario_A_text))])
      (boot Map.empty)))) \<noteq> []
   \<and> results (app (run (onboard_and_type @ [ClickAnalyze, Settles (Responds (Some scenario_A_text))])
      (boot Map.empty))) \<noteq> JNull
   \<and> lifecycles (fst (checkInteractions CallThrows
        (app (run (onboard_and_type @ [ClickAnalyze, Settles (Responds (Some scenario_A_text))])
          (boot Map.empty))))) = [Failed error_message]
   \<and> results (fst (checkInteractions CallThrows
        (app (run (onboard_and_type @ [ClickAnalyze, Settles (Responds (Some scenario_A_text))])
          (boot Map.empty))))) = JNull"
proof -
  let ?s = "app (run (onboard_and_type @ [ClickAnalyze, Settles (Responds (Some scenario_A_text))])
      (boot Map.empty))"
  have d: "trim (drugs ?s) \<noteq> []" by code_simp
  have r: "results ?s \<noteq> JNull" by code_simp
  have c: "CallThrows = ClientThrows \<or> CallThrows = CallThrows
         \<or> (\<exists>t. CallThrows = Responds t \<and> JSON_parse (text_or_default t) = None)"
    by simp
  from failure_discards_result [OF d c] d r show ?thesis by blast
qed

text \<open>
  C3. For every drug text whose trimmed value is empty, \<open>checkInteractions\<close> returns at once:
  no request is sent, no state variable changes, the submit button is disabled, and a
  click on it leaves the page as it was.
\<close>

theorem empty_input_is_noop:
  assumes "trim (drugs (app w)) = []"
  shows "checkInteractions sv (app w) = (app w, [])
         \<and> checkInteractions_start (app w) = None
         \<and> submit_disabled (app w)
         \<and> step ClickAnalyze w = w"
  using assms
  by (simp add: checkInteractions_def checkInteractions_start_def truthy_string_def
      submit_disabled_def)

theorem empty_input_is_noop_witness:
  "trim (drugs (app (run [ChangeInputName (js ''Rx''), ClickGetStarted, ChangeDrugs (js ''   '')]
      (boot Map.empty)))) = []
   \<and> onboarded (app (run [ChangeInputName (js ''Rx''), ClickGetStarted, ChangeDrugs (js ''   '')]
      (boot Map.empty)))
   \<and> snd (checkInteractions (Responds (Some scenario_A_text))
        (app (run [ChangeInputName (js ''Rx''), ClickGetStarted, ChangeDrugs (js ''   '')]
          (boot Map.empty)))) = []
   \<and> submit_disabled
        (app (run [ChangeInputName (js ''Rx''), ClickGetStarted, ChangeDrugs (js ''   '')]
          (boot Map.empty)))"
proof -
  let ?w = "run [ChangeInputName (js ''Rx''), ClickGetStarted, ChangeDrugs (js ''   '')]
      (boot Map.empty)"
  have d: "trim (drugs (app ?w)) = []" by code_simp
  have b: "onboarded (app ?w)" by code_simp
  from empty_input_is_noop [OF d, of "Responds (Some scenario_A_text)"]
  have "snd (checkInteractions (Responds (Some scenario_A_text)) (app ?w)) = []"
    and "submit_disabled (app ?w)"
    by simp_all
  with d b show ?thesis by blast
qed

lemma rendered_fields [simp]:
  "app (rendered w) = app w"
  "store (rendered w) = store w"
  "pending (rendered w) = pending w"
  by (simp_all add: rendered_def)

lemma error_message_truthy [simp]: "truthy_string error_message"
  by (simp add: truthy_string_def error_message_def)

text \<open>
  C9. When the service answers with the same text twice and that text parses to a truthy
  value, the first run ends in Success holding exactly the parsed value, the state allows
  a second run, and the second run, started from the state the first one left, ends in the
  same state, Success with the same value, and sends the same single request: the second
  result replaces the first and nothing accumulates. For every behaviour of the service a
  second run leaves what the first one left.
\<close>

theorem checkInteractions_idempotent:
  assumes "trim (drugs s) \<noteq> []"
    and "JSON_parse (text_or_default t) = Some v"
    and "truthy v"
  shows "lifecycles (fst (checkInteractions (Responds t) s)) = [Success v]
         \<and> lifecycles (fst (checkInteractions (Responds t)
               (fst (checkInteractions (Responds t) s)))) = [Success v]
         \<and> results (fst (checkInteractions (Responds t) s)) = v
         \<and> results (fst (checkInteractions (Responds t)
               (fst (checkInteractions (Responds t) s)))) = v
         \<and> fst (checkInteractions (Responds t) (fst (checkInteractions (Responds t) s)))
             = fst (checkInteractions (Responds t) s)
         \<and> snd (checkInteractions (Responds t) s) = [generateContent_request s]
         \<and> snd (checkInteractions (Responds t) (fst (checkInteractions (Responds t) s)))
             = [generateContent_request s]
         \<and> \<not> submit_disabled (fst (checkInteractions (Responds t) s))
         \<and> checkInteractions sv (fst (checkInteractions sv s)) = checkInteractions sv s"
proof -
  let ?s1 = "s \<lparr> loading := True, error := None, results := JNull \<rparr>"
  let ?s2 = "?s1 \<lparr> results := v, loading := False \<rparr>"
  have st1: "checkInteractions_start s = Some ?s1"
    by (rule start_nonempty [OF assms(1)])
  have d2: "trim (drugs ?s2) \<noteq> []"
    using assms(1) by simp
  have "checkInteractions_start ?s2
          = Some (?s2 \<lparr> loading := True, error := None, results := JNull \<rparr>)"
    by (rule start_nonempty [OF d2])
  also have "?s2 \<lparr> loading := True, error := None, results := JNull \<rparr> = ?s1"
    by simp
  finally have st2: "checkInteractions_start ?s2 = Some ?s1" .
  have settle: "checkInteractions_settle (Responds t) ?s1 = ?s2"
    by (rule settle_parsed [OF assms(2)])
  have req: "requests_sent (Responds t) ?s1 = [generateContent_request s]"
    by (simp add: requests_sent_def generateContent_request_def)
  have first: "checkInteractions (Responds t) s = (?s2, [generateContent_request s])"
    by (simp only: checkInteractions_def st1 option.case settle req)
  have second: "checkInteractions (Responds t) ?s2 = (?s2, [generateContent_request s])"
    by (simp only: checkInteractions_def st2 option.case settle req)
  have life: "lifecycles ?s2 = [Success v]"
    using assms(3) by (simp add: lifecycles_def)
  have enabled: "\<not> submit_disabled ?s2"
    using assms(1) by (simp add: submit_disabled_def truthy_string_def)
  have law: "checkInteractions sv (fst (checkInteractions sv s)) = checkInteractions sv s"
    by (auto simp: checkInteractions_def checkInteractions_start_def
        checkInteractions_settle_def finally_block_def catch_block_def try_block_def
        requests_sent_def generateContent_request_def
        split: service.splits option.splits)
  show ?thesis
    unfolding first second fst_conv snd_conv
    using life enabled law by simp
qed

theorem checkInteractions_idempotent_witness:
  "trim (drugs (app (run onboard_and_type (boot Map.empty)))) \<noteq> []
   \<and> JSON_parse (text_or_default (Some scenario_A_text)) = Some scenario_A_value
   \<and> truthy scenario_A_value
   \<and> lifecycles (fst (checkInteractions (Responds (Some scenario_A_text))
         (app (run onboard_and_type (boot Map.empty))))) = [Success scenario_A_value]
   \<and> lifecycles (fst (checkInteractions (Responds (Some scenario_A_text))
         (fst (checkInteractions (Responds (Some scenario_A_text))
            (app (run onboard_and_type (boot Map.empty))))))) = [Success scenario_A_value]
   \<and> as_DDIResponse scenario_A_value = Some scenario_A_result
   \<and> length (interactions scenario_A_result) = 1"
proof -
  let ?s = "app (run onboard_and_type (boot Map.empty))"
  have d: "trim (drugs ?s) \<noteq> []" by code_simp
  have p: "JSON_parse (text_or_default (Some scenario_A_text)) = Some scenario_A_value"
    by code_simp
  have t: "truthy scenario_A_value" by code_simp
  have r: "as_DDIResponse scenario_A_value = Some scenario_A_result" by code_simp
  have n: "length (interactions scenario_A_result) = 1"
    by (simp add: scenario_A_result_def)
  from checkInteractions_idempotent [OF d p t]
  have "lifecycles (fst (checkInteractions (Responds (Some scenario_A_text)) ?s))
          = [Success scenario_A_value]"
    and "lifecycles (fst (checkInteractions (Responds (Some scenario_A_text))
          (fst (checkInteractions (Responds (Some scenario_A_text)) ?s))))
          = [Success scenario_A_value]"
    by blast+
  with d p t r n show ?thesis by blast
qed

text \<open>
  C2. The claim asks that a response whose text is absent, or is valid JSON without the
  interactions array or the summary string, ends in Failed. The code does not do so:
  \<open>"{}"\<close> is parsed in place of the absent text, the empty object is stored as the
  result and no message is set, so the state is Success and not Failed; the render that
  follows throws at \<open>results.interactions.length\<close> and the page is unmounted. The same
  happens for a JSON object without \<open>interactions\<close>, and one without \<open>summary\<close> is
  stored and shown as it is. The sibling path, a text that is not valid JSON, ends in
  Failed with the page alive.
\<close>

theorem absent_text_is_stored_and_crashes:
  "text_or_default None = js ''{}''
   \<and> JSON_parse (js ''{}'') = Some (JObj [])
   \<and> as_DDIResponse (JObj []) = None
   \<and> results (fst (checkInteractions (Responds None)
         (app (run onboard_and_type (boot Map.empty))))) = JObj []
   \<and> error (fst (checkInteractions (Responds None)
         (app (run onboard_and_type (boot Map.empty))))) = None
   \<and> lifecycles (fst (checkInteractions (Responds None)
         (app (run onboard_and_type (boot Map.empty))))) = [Success (JObj [])]
   \<and> render_throws (fst (checkInteractions (Responds None)
         (app (run onboard_and_type (boot Map.empty)))))
   \<and> \<not> mounted (run (onboard_and_type @ [ClickAnalyze, Settles (Responds None)])
         (boot Map.empty))
   \<and> lifecycles (fst (checkInteractions (Responds (Some no_interactions_text))
         (app (run onboard_and_type (boot Map.empty)))))
       = [Success (JObj [(js ''summary'', JStr (js ''ok''))])]
   \<and> \<not> mounted (run (onboard_and_type
         @ [ClickAnalyze, Settles (Responds (Some no_interactions_text))]) (boot Map.empty))
   \<and> as_DDIResponse (JObj [(js ''interactions'', JArr [])]) = None
   \<and> lifecycles (fst (checkInteractions (Responds (Some no_summary_text))
         (app (run onboard_and_type (boot Map.empty)))))
       = [Success (JObj [(js ''interactions'', JArr [])])]
   \<and> lifecycles (fst (checkInteractions (Responds (Some (js ''oops'')))
         (app (run onboard_and_type (boot Map.empty))))) = [Failed error_message]
   \<and> mounted (run (onboard_and_type @ [ClickAnalyze, Settles (Responds (Some (js ''oops'')))])
         (boot Map.empty))"
proof -
  let ?s = "app (run onboard_and_type (boot Map.empty))"
  have 1: "text_or_default None = js ''{}''" by code_simp
  have 2: "JSON_parse (js ''{}'') = Some (JObj [])" by code_simp
  have 3: "as_DDIResponse (JObj []) = None" by code_simp
  have 4: "results (fst (checkInteractions (Responds None) ?s)) = JObj []" by code_simp
  have 5: "error (fst (checkInteractions (Responds None) ?s)) = None" by code_simp
  have 6: "lifecycles (fst (checkInteractions (Responds None) ?s)) = [Success (JObj [])]"
    by code_simp
  have 7: "render_throws (fst (checkInteractions (Responds None) ?s))" by code_simp
  have 8: "\<not> mounted (run (onboard_and_type @ [ClickAnalyze, Settles (Responds None)])
         (boot Map.empty))"
    by code_simp
  have 9: "lifecycles (fst (checkInteractions (Responds (Some (js ''oops''))) ?s))
         = [Failed error_message]"
    by code_simp
  have 10: "mounted (run (onboard_and_type @ [ClickAnalyze, Settles (Responds (Some (js ''oops'')))])
         (boot Map.empty))"
    by code_simp
  have 11: "lifecycles (fst (checkInteractions (Responds (Some no_interactions_text)) ?s))
         = [Success (JObj [(js ''summary'', JStr (js ''ok''))])]"
    by code_simp
  have 12: "\<not> mounted (run (onboard_and_type
         @ [ClickAnalyze, Settles (Responds (Some no_interactions_text))]) (boot Map.empty))"
    by code_simp
  have 13: "as_DDIResponse (JObj [(js ''interactions'', JArr [])]) = None" by code_simp
  have 14: "lifecycles (fst (checkInteractions (Responds (Some no_summary_text)) ?s))
         = [Success (JObj [(js ''interactions'', JArr [])])]"
    by code_simp
  from 1 2 3 4 5 6 7 8 9 10 11 12 13 14 show ?thesis by blast
qed

section \<open>Values that render\<close>

text \<open>
  A stored value of the declared shape renders, so it never unmounts the page; a falsy
  value shows no panel and leaves the page idle.
\<close>

lemma as_string_Some: "as_string x = Some y \<Longrightarrow> x = JStr y"
  by (cases x) simp_all

lemma as_array_Some: "as_array x = Some ys \<Longrightarrow> x = JArr ys"
  by (cases x) simp_all

lemma all_some_Some: "all_some ys = Some zs \<Longrightarrow> \<forall>y \<in> set ys. y \<noteq> None"
  by (induction ys arbitrary: zs rule: all_some.induct) auto

lemma string_field_Some:
  "string_field ps k = Some x \<Longrightarrow> map_of ps (js k) = Some (JStr x)"
  by (auto simp: string_field_def Option.bind_eq_Some_conv dest: as_string_Some)

lemma array_field_Some:
  "array_field ps k = Some xs \<Longrightarrow> map_of ps (js k) = Some (JArr xs)"
  by (auto simp: array_field_def Option.bind_eq_Some_conv dest: as_array_Some)

lemma strings_are_children:
  assumes "all_some (map as_string ds) = Some xs"
  shows "\<forall>d \<in> set ds. valid_child d"
proof
  fix d assume "d \<in> set ds"
  with all_some_Some [OF assms] have "as_string d \<noteq> None" by auto
  then obtain y where "as_string d = Some y" by auto
  then have "d = JStr y" by (rule as_string_Some)
  then show "valid_child d" by simp
qed

lemma typed_card_renders:
  assumes "as_InteractionResult i = Some x"
  shows "card_renders i"
proof -
  from assms obtain ps where i: "i = JObj ps"
    by (cases i) (simp_all add: as_InteractionResult_def)
  from assms i obtain sv ds m c r where
    f: "string_field ps ''severity'' = Some sv"
      "Option.bind (array_field ps ''drugs'') (\<lambda>ds. all_some (map as_string ds)) = Some ds"
      "string_field ps ''mechanism'' = Some m"
      "string_field ps ''clinicalEffect'' = Some c"
      "string_field ps ''recommendation'' = Some r"
    by (auto simp: as_InteractionResult_def split: option.splits)
  from f(2) obtain js_ds where
    a: "array_field ps ''drugs'' = Some js_ds" and s: "all_some (map as_string js_ds) = Some ds"
    by (auto simp: Option.bind_eq_Some_conv)
  from strings_are_children [OF s] array_field_Some [OF a]
    string_field_Some [OF f(1)] string_field_Some [OF f(3)]
    string_field_Some [OF f(4)] string_field_Some [OF f(5)]
  show ?thesis
    by (simp add: card_renders_def i field_renders_def)
qed

lemma typed_panel_renders:
  assumes "as_DDIResponse v = Some r"
  shows "panel_renders v"
proof -
  from assms obtain ps where v: "v = JObj ps"
    by (cases v) (simp_all add: as_DDIResponse_def)
  from assms v obtain rs sm where
    f: "Option.bind (array_field ps ''interactions'')
          (\<lambda>xs. all_some (map as_InteractionResult xs)) = Some rs"
      "string_field ps ''summary'' = Some sm"
    by (auto simp: as_DDIResponse_def split: option.splits)
  from f(1) obtain items where
    a: "array_field ps ''interactions'' = Some items"
    and s: "all_some (map as_InteractionResult items) = Some rs"
    by (auto simp: Option.bind_eq_Some_conv)
  have "card_renders i" if "i \<in> set items" for i
  proof -
    from all_some_Some [OF s] that have "as_InteractionResult i \<noteq> None" by auto
    then obtain x where "as_InteractionResult i = Some x" by auto
    then show ?thesis by (rule typed_card_renders)
  qed
  with array_field_Some [OF a] string_field_Some [OF f(2)] show ?thesis
    by (simp add: panel_renders_def v)
qed

lemma typed_result_keeps_page:
  "as_DDIResponse (results (app w)) = Some r \<Longrightarrow> rendered w = w"
  by (simp add: rendered_def render_throws_def typed_panel_renders)

lemma number_truthiness_examples:
  "\<not> truthy (JNum (js ''0''))"
  "\<not> truthy (JNum (js ''-0.0e5''))"
  "\<not> truthy (JNum (js ''1e-400''))"
  "truthy (JNum (js ''5e-324''))"
  "truthy (JNum (js ''-12.5E+2''))"
  by code_simp+

lemma falsy_value_shows_no_result:
  "JSON_parse (js ''false'') = Some (JBool False)"
  "lifecycles (app (run (onboard_and_type @ [ClickAnalyze, Settles (Responds (Some (js ''false'')))])
      (boot Map.empty))) = [Idle]"
  "mounted (run (onboard_and_type @ [ClickAnalyze, Settles (Responds (Some (js ''false'')))])
      (boot Map.empty))"
  by code_simp+

lemma typed_result_examples:
  "mounted (run (onboard_and_type @ [ClickAnalyze, Settles (Responds (Some scenario_A_text))])
      (boot Map.empty))"
  "results (app (run (onboard_and_type @ [ClickAnalyze, Settles (Responds (Some scenario_A_text)),
      ClickAnalyze, Settles (Responds (Some scenario_A_text))]) (boot Map.empty))) = scenario_A_value"
  by code_simp+


section \<open>The request lifecycle\<close>

lemma lifecycle_inv_boot: "lifecycle_inv (boot st)"
  by (simp add: lifecycle_inv_def boot_def App_init_def)

lemma lifecycle_inv_step: "lifecycle_inv w \<Longrightarrow> lifecycle_inv (step e w)"
proof (cases e)
  case ClickAnalyze
  assume "lifecycle_inv w"
  then show ?thesis
    using ClickAnalyze
    by (auto simp: lifecycle_inv_def submit_disabled_def checkInteractions_start_def
        split: option.splits if_splits)
next
  case (Settles sv)
  assume "lifecycle_inv w"
  then show ?thesis
    using Settles settle_error_or_result [of "app w" sv]
    by (auto simp: lifecycle_inv_def)
next
  case ClickGetStarted
  assume "lifecycle_inv w"
  then show ?thesis
    using ClickGetStarted by (auto simp: lifecycle_inv_def handleStart_def)
qed (auto simp: lifecycle_inv_def reset_def boot_def App_init_def)

lemma lifecycle_inv_run: "lifecycle_inv w \<Longrightarrow> lifecycle_inv (run es w)"
  by (induction es arbitrary: w) (simp_all add: lifecycle_inv_step)

lemma lifecycle_inv_single: "lifecycle_inv w \<Longrightarrow> \<exists>l. lifecycles (app w) = [l]"
  by (cases "error (app w)") (auto simp: lifecycle_inv_def lifecycles_def)

text \<open>
  C7. After any sequence of events on a freshly loaded page exactly one lifecycle state
  applies; and from every state, whatever it held, the start of a query with non-empty
  trimmed input leaves the state Loading with no result and no message.
\<close>

theorem lifecycle_exactly_one:
  "(\<exists>l. lifecycles (app (run es (boot st))) = [l])
   \<and> (trim (drugs s) \<noteq> [] \<longrightarrow>
        (\<exists>s'. checkInteractions_start s = Some s' \<and> lifecycles s' = [Loading]
              \<and> loading s' \<and> results s' = JNull \<and> error s' = None))"
proof
  show "\<exists>l. lifecycles (app (run es (boot st))) = [l]"
    by (rule lifecycle_inv_single, rule lifecycle_inv_run, rule lifecycle_inv_boot)
  show "trim (drugs s) \<noteq> [] \<longrightarrow>
        (\<exists>s'. checkInteractions_start s = Some s' \<and> lifecycles s' = [Loading]
              \<and> loading s' \<and> results s' = JNull \<and> error s' = None)"
    by (simp add: checkInteractions_start_def truthy_string_def lifecycles_def)
qed

theorem lifecycle_exactly_one_witness:
  "trim (drugs (app (run (onboard_and_type @ [ClickAnalyze, Settles CallThrows]) (boot Map.empty))))
     \<noteq> []
   \<and> lifecycles (app (run (onboard_and_type @ [ClickAnalyze, Settles CallThrows]) (boot Map.empty)))
       = [Failed error_message]
   \<and> (\<exists>s'. checkInteractions_start
              (app (run (onboard_and_type @ [ClickAnalyze, Settles CallThrows]) (boot Map.empty)))
            = Some s' \<and> lifecycles s' = [Loading] \<and> results s' = JNull \<and> error s' = None)"
proof -
  let ?s = "app (run (onboard_and_type @ [ClickAnalyze, Settles CallThrows]) (boot Map.empty))"
  have d: "trim (drugs ?s) \<noteq> []" by code_simp
  have f: "lifecycles ?s = [Failed error_message]" by code_simp
  from lifecycle_exactly_one [of _ _ ?s] d
  have "\<exists>s'. checkInteractions_start ?s = Some s' \<and> lifecycles s' = [Loading]
              \<and> results s' = JNull \<and> error s' = None"
    by blast
  with d f show ?thesis by blast
qed

section \<open>The agent name\<close>

lemma name_inv_boot:
  "st key_onboarded = None \<Longrightarrow> st key_agent_name = None \<Longrightarrow> name_inv (boot st)"
  by (simp add: name_inv_def boot_def App_init_def getItem_def)

lemma name_inv_step: "name_inv w \<Longrightarrow> name_inv (step e w)"
proof (cases e)
  case ClickAnalyze
  assume "name_inv w"
  then show ?thesis
    using ClickAnalyze
    by (auto simp: name_inv_def checkInteractions_start_def split: option.splits if_splits)
next
  case (Settles sv)
  assume "name_inv w"
  then show ?thesis
    using Settles by (auto simp: name_inv_def)
next
  case ClickGetStarted
  assume "name_inv w"
  then show ?thesis
    using ClickGetStarted keys_distinct
    by (auto simp: name_inv_def handleStart_def setItem_def trim_idem truthy_string_def)
next
  case Reload
  assume "name_inv w"
  then show ?thesis
    using Reload
    by (auto simp: name_inv_def boot_def App_init_def getItem_def truthy_string_def
        split: option.splits)
qed (auto simp: name_inv_def reset_def boot_def App_init_def getItem_def clear_def)

lemma name_inv_run: "name_inv w \<Longrightarrow> name_inv (run es w)"
  by (induction es arbitrary: w) (simp_all add: name_inv_step)

lemma trimmed_ends:
  assumes "trim a = a" and "a \<noteq> []"
  shows "\<not> is_ws (hd a) \<and> \<not> is_ws (last a)"
  using trim_no_leading [of a] trim_no_trailing [of a] assms by simp

text \<open>
  C10. When onboarding completes, the agent name of the session and the stored
  \<open>d-di-agent-name\<close> are the trimmed form of the typed name, with no white space at
  either end. And on a page whose storage did not hold the two keys at first, after any
  sequence of events the agent name is its own trimmed form and, once onboarded, is
  non-empty, equal to the stored name and free of white space at both ends.
\<close>

theorem agent_name_is_trimmed:
  "(trim (inputName (app w)) \<noteq> [] \<longrightarrow>
      agentName (app (handleStart w)) = trim (inputName (app w))
      \<and> getItem (store (handleStart w)) key_agent_name = Some (trim (inputName (app w)))
      \<and> \<not> is_ws (hd (agentName (app (handleStart w))))
      \<and> \<not> is_ws (last (agentName (app (handleStart w)))))
   \<and> (st key_onboarded = None \<and> st key_agent_name = None \<longrightarrow>
      trim (agentName (app (run es (boot st)))) = agentName (app (run es (boot st)))
      \<and> (onboarded (app (run es (boot st))) \<longrightarrow>
            agentName (app (run es (boot st))) \<noteq> []
            \<and> getItem (store (run es (boot st))) key_agent_name
                = Some (agentName (app (run es (boot st))))
            \<and> \<not> is_ws (hd (agentName (app (run es (boot st)))))
            \<and> \<not> is_ws (last (agentName (app (run es (boot st)))))))"
proof (intro conjI impI)
  assume ne: "trim (inputName (app w)) \<noteq> []"
  then show a: "agentName (app (handleStart w)) = trim (inputName (app w))"
    by (simp add: handleStart_def truthy_string_def)
  from ne show "getItem (store (handleStart w)) key_agent_name = Some (trim (inputName (app w)))"
    using keys_distinct by (simp add: handleStart_def truthy_string_def setItem_def getItem_def)
  from ne a show "\<not> is_ws (hd (agentName (app (handleStart w))))"
    by (simp add: trim_no_leading)
  from ne a show "\<not> is_ws (last (agentName (app (handleStart w))))"
    by (simp add: trim_no_trailing)
next
  assume "st key_onboarded = None \<and> st key_agent_name = None"
  then have inv: "name_inv (run es (boot st))"
    by (intro name_inv_run name_inv_boot) simp_all
  then show t: "trim (agentName (app (run es (boot st)))) = agentName (app (run es (boot st)))"
    unfolding name_inv_def by blast
  assume ob: "onboarded (app (run es (boot st)))"
  with inv show ne: "agentName (app (run es (boot st))) \<noteq> []"
    unfolding name_inv_def by blast
  with inv show "getItem (store (run es (boot st))) key_agent_name
                = Some (agentName (app (run es (boot st))))"
    by (auto simp: name_inv_def getItem_def split: option.splits)
  from trimmed_ends [OF t ne]
  show "\<not> is_ws (hd (agentName (app (run es (boot st)))))"
    and "\<not> is_ws (last (agentName (app (run es (boot st)))))"
    by simp_all
qed

theorem agent_name_is_trimmed_witness:
  "trim (inputName (app (run [ChangeInputName (js '' Pharmy '')] (boot Map.empty)))) \<noteq> []
   \<and> agentName (app (handleStart (run [ChangeInputName (js '' Pharmy '')] (boot Map.empty))))
       = js ''Pharmy''
   \<and> (Map.empty :: storage) key_onboarded = None \<and> (Map.empty :: storage) key_agent_name = None
   \<and> onboarded (app (run (onboard_and_type @ [Reload]) (boot Map.empty)))
   \<and> agentName (app (run (onboard_and_type @ [Reload]) (boot Map.empty))) = js ''Pharmy''
   \<and> getItem (store (run (onboard_and_type @ [Reload]) (boot Map.empty))) key_agent_name
       = Some (agentName (app (run (onboard_and_type @ [Reload]) (boot Map.empty))))
   \<and> \<not> is_ws (hd (agentName (app (run (onboard_and_type @ [Reload]) (boot Map.empty)))))"
proof -
  let ?w = "run [ChangeInputName (js '' Pharmy '')] (boot Map.empty)"
  let ?v = "run (onboard_and_type @ [Reload]) (boot Map.empty)"
  have n: "trim (inputName (app ?w)) \<noteq> []" by code_simp
  have t: "trim (inputName (app ?w)) = js ''Pharmy''" by code_simp
  have f: "(Map.empty :: storage) key_onboarded = None \<and> (Map.empty :: storage) key_agent_name = None"
    by simp
  have ob: "onboarded (app ?v)" by code_simp
  have nm: "agentName (app ?v) = js ''Pharmy''" by code_simp
  from agent_name_is_trimmed [of ?w] n
  have "agentName (app (handleStart ?w)) = trim (inputName (app ?w))"
    by blast
  then have 1: "agentName (app (handleStart ?w)) = js ''Pharmy''"
    by (simp only: t)
  from agent_name_is_trimmed [of _ Map.empty "onboard_and_type @ [Reload]"] f ob
  have 2: "getItem (store ?v) key_agent_name = Some (agentName (app ?v))"
    and 3: "\<not> is_ws (hd (agentName (app ?v)))"
    by blast+
  from n 1 f ob nm 2 3 show ?thesis by blast
qed


section \<open>The severity icon\<close>

lemma AlertIcon_known:
  "AlertIcon (js ''Minor'') = ClassName (js ''text-blue-500'')"
  "AlertIcon (js ''Moderate'') = ClassName (js ''text-yellow-500'')"
  "AlertIcon (js ''Major'') = ClassName (js ''text-orange-500'')"
  "AlertIcon (js ''Contraindicated'') = ClassName (js ''text-red-600'')"
  by (simp_all add: AlertIcon_def colors_get_def colors_def js_eq_iff truthy_string_def)

lemma AlertIcon_fallback:
  assumes "sev \<notin> {js ''Minor'', js ''Moderate'', js ''Major'', js ''Contraindicated''}"
    and "sev \<notin> set Object_prototype_keys"
  shows "AlertIcon sev = ClassName (js ''text-gray-500'')"
  using assms by (simp add: AlertIcon_def colors_get_def colors_def)

lemma AlertIcon_inherited:
  assumes "sev \<in> set Object_prototype_keys"
  shows "AlertIcon sev = NotAString sev"
proof -
  from assms have "map_of colors sev = None"
    by (auto simp: Object_prototype_keys_def colors_def js_eq_iff)
  with assms show ?thesis
    by (simp add: AlertIcon_def colors_get_def)
qed

text \<open>
  C4 asks that every string other than the four severities gets the one neutral class.
  The code does so for every name that is found nowhere (\<open>AlertIcon_fallback\<close>), but the
  names of the members inherited from \<open>Object.prototype\<close> are found, and the fallback is
  not taken: \<open>constructor\<close> and \<open>unknown\<close>, neither one of the four, get different
  values.
\<close>

theorem AlertIcon_inherited_name:
  "AlertIcon (js ''constructor'') = NotAString (js ''constructor'')
   \<and> AlertIcon (js ''unknown'') = ClassName (js ''text-gray-500'')
   \<and> AlertIcon (js ''constructor'') \<noteq> AlertIcon (js ''unknown'')"
  by (simp add: AlertIcon_def colors_get_def colors_def Object_prototype_keys_def js_eq_iff
      truthy_string_def)

section \<open>Rendering\<close>

lemma scenario_A_decodes:
  "Option.bind (JSON_parse scenario_A_text) as_DDIResponse = Some scenario_A_result"
  by code_simp

lemma scenario_B_decodes:
  "Option.bind (JSON_parse scenario_B_text) as_DDIResponse = Some scenario_B_result"
  by code_simp

lemma digit_value: "d < 10 \<Longrightarrow> unat (cu CHR ''0'' + of_nat d - cu CHR ''0'' :: code_unit) = d"
  by (simp add: unat_of_nat take_bit_nat_eq_self)

lemma decimal_value_snoc:
  "decimal_value (ds @ [c]) = 10 * decimal_value ds + unat (c - cu CHR ''0'')"
  by (simp add: decimal_value_def)

lemma decimal_value_Number_toString: "decimal_value (Number_toString n) = n"
proof (induction n rule: Number_toString.induct)
  case (1 n)
  show ?case
  proof (cases "n < 10")
    case True
    then show ?thesis
      using digit_value [of n] decimal_value_snoc [of "[]" "cu CHR ''0'' + of_nat n"]
      by (subst Number_toString.simps) (simp add: decimal_value_def)
  next
    case False
    have "n mod 10 < 10" by simp
    from digit_value [OF this] 1 False show ?thesis
      by (subst Number_toString.simps) (simp add: decimal_value_snoc)
  qed
qed

lemma Number_toString_0: "Number_toString 0 = js ''0''"
  by (subst Number_toString.simps) (simp add: js_def)

text \<open>
  C5. For every result the panel shows one card per interaction, in the order of the
  list and with the fields of each record shown as they are, and a count badge that is
  the decimal length of the list followed by \<open>Found\<close>; for the empty list it shows the
  badge \<open>0 Found\<close>, no card and the note that no interaction was detected.
\<close>

theorem results_panel_cards:
  "cards (render_results r) = map render_card (interactions r)
   \<and> length (cards (render_results r)) = length (interactions r)
   \<and> (\<forall>i < length (interactions r).
         cards (render_results r) ! i = render_card (interactions r ! i))
   \<and> map severity_label (cards (render_results r)) = map severity (interactions r)
   \<and> map drug_chips (cards (render_results r)) = map InteractionResult.drugs (interactions r)
   \<and> map mechanism_text (cards (render_results r)) = map mechanism (interactions r)
   \<and> map clinicalEffect_text (cards (render_results r)) = map clinicalEffect (interactions r)
   \<and> map recommendation_text (cards (render_results r)) = map recommendation (interactions r)
   \<and> count_badge (render_results r)
       = Number_toString (length (interactions r)) @ js '' Found''
   \<and> decimal_value (Number_toString (length (interactions r))) = length (interactions r)
   \<and> (interactions r = [] \<longrightarrow>
         count_badge (render_results r) = js ''0 Found''
         \<and> cards (render_results r) = []
         \<and> empty_note (render_results r)
             = Some (js ''No significant interactions detected for the provided list.''))
   \<and> (interactions r \<noteq> [] \<longrightarrow> empty_note (render_results r) = None)"
  by (simp add: render_results_def render_card_def decimal_value_Number_toString
      Number_toString_0 js_def comp_def)

theorem results_panel_cards_witness:
  "interactions scenario_B_result = []
   \<and> count_badge (render_results scenario_B_result) = js ''0 Found''
   \<and> cards (render_results scenario_B_result) = []
   \<and> empty_note (render_results scenario_B_result)
       = Some (js ''No significant interactions detected for the provided list.'')
   \<and> interactions scenario_A_result \<noteq> []
   \<and> (0::nat) < length (interactions scenario_A_result)
   \<and> cards (render_results scenario_A_result) ! 0
       = render_card (interactions scenario_A_result ! 0)
   \<and> count_badge (render_results scenario_A_result) = js ''1 Found''
   \<and> empty_note (render_results scenario_A_result) = None"
proof -
  have b: "interactions scenario_B_result = []"
    by (simp add: scenario_B_result_def)
  have a: "interactions scenario_A_result \<noteq> []" "(0::nat) < length (interactions scenario_A_result)"
    by (simp_all add: scenario_A_result_def)
  have n: "Number_toString (length (interactions scenario_A_result)) @ js '' Found'' = js ''1 Found''"
    by code_simp
  note B = results_panel_cards [of scenario_B_result]
  note A = results_panel_cards [of scenario_A_result]
  from B b have "count_badge (render_results scenario_B_result) = js ''0 Found''"
    "cards (render_results scenario_B_result) = []"
    "empty_note (render_results scenario_B_result)
       = Some (js ''No significant interactions detected for the provided list.'')"
    by blast+
  moreover from A a have "cards (render_results scenario_A_result) ! 0
       = render_card (interactions scenario_A_result ! 0)"
    "empty_note (render_results scenario_A_result) = None"
    by blast+
  moreover from A n have "count_badge (render_results scenario_A_result) = js ''1 Found''"
    by simp
  ultimately show ?thesis using a b by blast
qed


end
